theory Spec2Isabelle
  imports Complex_Main "HOL-Library.AList"
begin

section \<open>Strings of the host language\<close>

text \<open>
  The module \<^verbatim>\<open>src/utils/svgUtils.js\<close> works on strings and on a tree of elements handed to
  it by the host. Strings are modelled as \<^typ>\<open>string\<close>; one \<^typ>\<open>char\<close> stands for one code
  unit in the range U+0000 .. U+00FF. In that range the white space of \<^verbatim>\<open>trim\<close> and of the
  regular expression class \<^verbatim>\<open>\s\<close> is TAB, LF, VT, FF, CR, SP and NBSP, and the line
  terminators (which the regular expression \<^verbatim>\<open>.\<close> does not match) are LF and CR.
\<close>

definition isWhiteSpace :: "char \<Rightarrow> bool" where
  "isWhiteSpace c = (of_char c \<in> {9, 10, 11, 12, 13, 32, 160 :: nat})"

definition isLineTerminator :: "char \<Rightarrow> bool" where
  "isLineTerminator c = (of_char c \<in> {10, 13 :: nat})"

text \<open>\<^verbatim>\<open>String.prototype.trim\<close>.\<close>

definition trim :: "string \<Rightarrow> string" where
  "trim s = rev (dropWhile isWhiteSpace (rev (dropWhile isWhiteSpace s)))"

text \<open>
  \<^verbatim>\<open>String.prototype.toLowerCase\<close>: in the modelled range the letters with a lower-case
  mapping are A .. Z and U+00C0 .. U+00DE without the multiplication sign U+00D7.
\<close>

definition lowerChar :: "char \<Rightarrow> char" where
  "lowerChar c = (let n = (of_char c :: nat) in
     if (65 \<le> n \<and> n \<le> 90) \<or> (192 \<le> n \<and> n \<le> 222 \<and> n \<noteq> 215)
     then char_of (n + 32) else c)"

definition toLowerCase :: "string \<Rightarrow> string" where
  "toLowerCase s = map lowerChar s"

text \<open>\<^verbatim>\<open>s.startsWith(p)\<close>, written \<open>startsWith p s\<close>.\<close>

fun startsWith :: "string \<Rightarrow> string \<Rightarrow> bool" where
  "startsWith [] s = True"
| "startsWith (p # ps) [] = False"
| "startsWith (p # ps) (c # cs) = (p = c \<and> startsWith ps cs)"

text \<open>
  \<^verbatim>\<open>s.split(sep)\<close> for a separator of one character: the pieces between the occurrences
  of the separator; the empty string gives one empty piece.
\<close>

fun splitOn :: "char \<Rightarrow> string \<Rightarrow> string list" where
  "splitOn sep [] = [[]]"
| "splitOn sep (c # cs) =
     (if c = sep then [] # splitOn sep cs
      else (case splitOn sep cs of
              [] \<Rightarrow> [[c]]
            | piece # pieces \<Rightarrow> (c # piece) # pieces))"

text \<open>
  \<^verbatim>\<open>s.split(/\s+/)\<close>: the pieces between the maximal runs of white space. A run at the
  start or at the end of the string leaves an empty piece there, and the empty string
  gives one empty piece, since the expression does not match the empty string.
\<close>

function splitWhiteSpace :: "string \<Rightarrow> string list" where
  "splitWhiteSpace [] = [[]]"
| "splitWhiteSpace (c # cs) =
     (if isWhiteSpace c then [] # splitWhiteSpace (dropWhile isWhiteSpace cs)
      else (case splitWhiteSpace cs of
              [] \<Rightarrow> [[c]]
            | piece # pieces \<Rightarrow> (c # piece) # pieces))"
  by pat_completeness auto
termination
  by (relation "measure length") (auto simp: length_dropWhile_le less_Suc_eq_le)

text \<open>
  \<^verbatim>\<open>s.replace(pat, rep)\<close> with a string pattern: the first occurrence of the pattern is
  replaced, the rest of the string is kept.
\<close>

fun replaceFirst :: "string \<Rightarrow> string \<Rightarrow> string \<Rightarrow> string" where
  "replaceFirst pat rep [] = (if pat = [] then rep else [])"
| "replaceFirst pat rep (c # cs) =
     (if startsWith pat (c # cs) then rep @ drop (length pat) (c # cs)
      else c # replaceFirst pat rep cs)"

section \<open>The element tree\<close>

text \<open>
  An element has a tag name, attributes and element children. \<open>tagName\<close> is the qualified
  name as an SVG or XML document reports it (case preserved). \<open>getAttribute\<close> gives the
  value of the first attribute of that name, or nothing (\<^verbatim>\<open>null\<close>).
\<close>

datatype element =
  Element (tagName: string) (attributes: "(string \<times> string) list") (children: "element list")

definition getAttribute :: "element \<Rightarrow> string \<Rightarrow> string option" where
  "getAttribute el name = map_of (attributes el) name"

text \<open>The element and its descendants in document order (pre-order).\<close>

fun inclusiveDescendants :: "element \<Rightarrow> element list" where
  "inclusiveDescendants (Element t as cs) =
     Element t as cs # concat (map inclusiveDescendants cs)"

definition descendants :: "element \<Rightarrow> element list" where
  "descendants el = concat (map inclusiveDescendants (children el))"

text \<open>\<^verbatim>\<open>el.getElementsByTagName(name)\<close>: the descendants of that qualified name, in document order.\<close>

definition getElementsByTagName :: "element \<Rightarrow> string \<Rightarrow> element list" where
  "getElementsByTagName el name = filter (\<lambda>e. tagName e = name) (descendants el)"

text \<open>
  A document is given by its document element, if it has one.
  \<^verbatim>\<open>doc.getElementById(id)\<close> is the first element in document order whose \<^verbatim>\<open>id\<close> attribute
  is the given non-empty string.
\<close>

datatype document = Document (documentElement: "element option")

definition getElementById :: "document \<Rightarrow> string \<Rightarrow> element option" where
  "getElementById doc gid =
     (if gid = [] then None
      else (case documentElement doc of
              None \<Rightarrow> None
            | Some rootEl \<Rightarrow> find (\<lambda>e. getAttribute e ''id'' = Some gid) (inclusiveDescendants rootEl)))"

section \<open>flattenShapes\<close>

text \<open>
  \<^verbatim>\<open>
  export function flattenShapes(elements) {
    const result = [];
    for (const el of elements) {
      if (el.tagName.toLowerCase() === "g") {
        result.push(...flattenShapes(Array.from(el.children)));
      } else {
        result.push(el);
      }
    }
    return result;
  }
  \<close>
\<close>

fun flattenShapes :: "element list \<Rightarrow> element list" where
  "flattenShapes [] = []"
| "flattenShapes (Element t as cs # els) =
     (if toLowerCase t = ''g'' then flattenShapes cs else [Element t as cs]) @ flattenShapes els"

text \<open>
  The count the specification speaks of: a node that is not a group counts once, a group
  counts what its children count, at every depth.
\<close>

fun countShapes :: "element \<Rightarrow> nat" where
  "countShapes (Element t as cs) =
     (if toLowerCase t = ''g'' then sum_list (map countShapes cs) else 1)"

section \<open>Numbers\<close>

text \<open>
  A value of the Number type is written as the term that denotes it: \<open>Num q\<close> is the Number
  value for the rational \<open>q\<close> (the nearest double; the rounding itself is not computed),
  \<open>NegZero\<close> is the negative zero, and \<open>NaN\<close> is the not-a-number value. \<open>NaN\<close> is denoted
  by no other term, so \<^verbatim>\<open>isNaN\<close> is exact.
\<close>

datatype jsnum = NaN | PosInfinity | NegInfinity | NegZero | Num rat

definition negate :: "jsnum \<Rightarrow> jsnum" where
  "negate v = (case v of
       NaN \<Rightarrow> NaN
     | PosInfinity \<Rightarrow> NegInfinity
     | NegInfinity \<Rightarrow> PosInfinity
     | NegZero \<Rightarrow> Num 0
     | Num q \<Rightarrow> (if q = 0 then NegZero else Num (- q)))"

definition isDigit :: "char \<Rightarrow> bool" where
  "isDigit c = (48 \<le> (of_char c :: nat) \<and> (of_char c :: nat) \<le> 57)"

definition digitValue :: "char \<Rightarrow> nat" where
  "digitValue c = (let n = (of_char c :: nat) in
     if 48 \<le> n \<and> n \<le> 57 then n - 48
     else if 97 \<le> n \<and> n \<le> 102 then n - 87
     else if 65 \<le> n \<and> n \<le> 70 then n - 55
     else 0)"

definition digitsValue :: "nat \<Rightarrow> string \<Rightarrow> nat" where
  "digitsValue base ds = foldl (\<lambda>a c. base * a + digitValue c) 0 ds"

definition scaled :: "nat \<Rightarrow> int \<Rightarrow> rat" where
  "scaled n e = (if 0 \<le> e then of_nat n * 10 ^ nat e else of_nat n / 10 ^ nat (- e))"

text \<open>
  The grammar of numeric strings. \<open>scanExponent\<close> reads an exponent part (\<^verbatim>\<open>e\<close> or
  \<^verbatim>\<open>E\<close>, an optional sign, at least one digit) if there is one, \<open>scanUnsigned\<close> the longest
  prefix that is an unsigned decimal literal (\<^verbatim>\<open>Infinity\<close>, digits with an optional
  fraction, or a fraction starting with the point; \<open>afterDigits\<close> reads what follows the
  leading digits), \<open>scanDecimal\<close> the same after an optional sign. Each returns the value
  and the rest of the string.
\<close>

definition scanExponent :: "string \<Rightarrow> int \<times> string" where
  "scanExponent s = (case s of
       [] \<Rightarrow> (0, s)
     | c # r \<Rightarrow>
         if c = CHR ''e'' \<or> c = CHR ''E'' then
           (let neg = (r \<noteq> [] \<and> hd r = CHR ''-'');
                r' = (if r \<noteq> [] \<and> (hd r = CHR ''+'' \<or> hd r = CHR ''-'') then tl r else r);
                ds = takeWhile isDigit r'
            in if ds = [] then (0, s)
               else ((if neg then - int (digitsValue 10 ds) else int (digitsValue 10 ds)),
                     dropWhile isDigit r'))
         else (0, s))"

definition withExponent :: "string \<Rightarrow> string \<Rightarrow> string \<Rightarrow> (jsnum \<times> string) option" where
  "withExponent ip fp rest =
     (let (e, rest') = scanExponent rest
      in Some (Num (scaled (digitsValue 10 (ip @ fp)) (e - int (length fp))), rest'))"

definition afterDigits :: "string \<Rightarrow> string \<Rightarrow> (jsnum \<times> string) option" where
  "afterDigits ip r1 =
     (if r1 \<noteq> [] \<and> hd r1 = CHR ''.'' then
        (if ip = [] \<and> takeWhile isDigit (tl r1) = [] then None
         else withExponent ip (takeWhile isDigit (tl r1)) (dropWhile isDigit (tl r1)))
      else if ip = [] then None
      else withExponent ip [] r1)"

definition scanUnsigned :: "string \<Rightarrow> (jsnum \<times> string) option" where
  "scanUnsigned s =
     (if startsWith ''Infinity'' s then Some (PosInfinity, drop 8 s)
      else afterDigits (takeWhile isDigit s) (dropWhile isDigit s))"

definition scanDecimal :: "string \<Rightarrow> (jsnum \<times> string) option" where
  "scanDecimal s = (case s of
       [] \<Rightarrow> None
     | c # r \<Rightarrow>
         if c = CHR ''+'' then scanUnsigned r
         else if c = CHR ''-'' then map_option (\<lambda>(v, rest). (negate v, rest)) (scanUnsigned r)
         else scanUnsigned s)"

text \<open>Binary, octal and hexadecimal integer literals: \<^verbatim>\<open>0b\<close>, \<^verbatim>\<open>0o\<close>, \<^verbatim>\<open>0x\<close> and digits.\<close>

definition isDigitOf :: "nat \<Rightarrow> char \<Rightarrow> bool" where
  "isDigitOf base c = (let n = (of_char c :: nat) in
     (48 \<le> n \<and> n \<le> 57 \<or> 97 \<le> n \<and> n \<le> 102 \<or> 65 \<le> n \<and> n \<le> 70) \<and> digitValue c < base)"

definition nonDecimal :: "string \<Rightarrow> nat option" where
  "nonDecimal s = (case s of
       z # p # ds \<Rightarrow>
         (let base = (if p = CHR ''b'' \<or> p = CHR ''B'' then 2
                      else if p = CHR ''o'' \<or> p = CHR ''O'' then 8
                      else if p = CHR ''x'' \<or> p = CHR ''X'' then 16 else 0 :: nat)
          in if z = CHR ''0'' \<and> base \<noteq> 0 \<and> ds \<noteq> [] \<and> list_all (isDigitOf base) ds
             then Some (digitsValue base ds) else None)
     | _ \<Rightarrow> None)"

text \<open>
  \<^verbatim>\<open>Number(s)\<close> for a string: white space is trimmed; the empty string is 0; a decimal
  literal or a binary, octal or hexadecimal integer literal has its value; anything else
  is \<open>NaN\<close>. \<^verbatim>\<open>isNaN(s)\<close> converts in the same way. \<^verbatim>\<open>parseFloat(s)\<close> skips leading white
  space and takes the longest prefix that is a decimal literal, \<open>NaN\<close> if there is none.
\<close>

definition Number :: "string \<Rightarrow> jsnum" where
  "Number s =
     (let t = trim s
      in if t = [] then Num 0
         else (case scanDecimal t of
                 Some (v, []) \<Rightarrow> v
               | _ \<Rightarrow> (case nonDecimal t of Some n \<Rightarrow> Num (of_nat n) | None \<Rightarrow> NaN)))"

definition isNaN :: "string \<Rightarrow> bool" where
  "isNaN s = (Number s = NaN)"

definition parseFloat :: "string \<Rightarrow> jsnum" where
  "parseFloat s = (case scanDecimal (dropWhile isWhiteSpace s) of
       Some (v, rest) \<Rightarrow> v
     | None \<Rightarrow> NaN)"

section \<open>parsePoints\<close>

text \<open>
  \<^verbatim>\<open>
  export function parsePoints(points) {
    return points
      .trim()
      .split(/\s+/)
      .map((p) => p.split(",").map(Number));
  }
  \<close>
\<close>

definition parsePoints :: "string \<Rightarrow> jsnum list list" where
  "parsePoints points =
     map (\<lambda>p. map Number (splitOn CHR '','' p)) (splitWhiteSpace (trim points))"

text \<open>
  Well-formed input of \<open>parsePoints\<close>, as the specification describes it: tokens that are
  not empty and hold no white space, each but the last followed by a separator, which is
  a run of white space that is not empty.
\<close>

definition isToken :: "string \<Rightarrow> bool" where
  "isToken t = (t \<noteq> [] \<and> (\<forall>c \<in> set t. \<not> isWhiteSpace c))"

definition isSeparator :: "string \<Rightarrow> bool" where
  "isSeparator w = (w \<noteq> [] \<and> (\<forall>c \<in> set w. isWhiteSpace c))"

fun joinTokens :: "(string \<times> string) list \<Rightarrow> string \<Rightarrow> string" where
  "joinTokens [] lastToken = lastToken"
| "joinTokens ((token, sep) # rest) lastToken = token @ sep @ joinTokens rest lastToken"

section \<open>Values and objects\<close>

text \<open>
  The values the module returns. An object is the list of its own properties in the
  order of their creation; \<open>AList.update\<close> is the assignment \<^verbatim>\<open>obj[key] = value\<close>. (The host
  enumerates property names that are array indices first; no property stated here depends
  on the order of the properties.)
\<close>

datatype jsvalue =
    VUndefined
  | VNull
  | VNum jsnum
  | VStr string
  | VArr "jsvalue list"
  | VObj "(string \<times> jsvalue) list"

text \<open>The one error the module can raise: calling or reading through a value that does not allow it.\<close>

datatype error = TypeError

text \<open>
  The lookup tables of the module are object literals, so \<^verbatim>\<open>table[key]\<close> finds the
  properties that every object inherits from \<^verbatim>\<open>Object.prototype\<close> as well as the table's
  own. The inherited values are functions (and, for \<^verbatim>\<open>__proto__\<close>, the prototype object):
  they are truthy and have no \<^verbatim>\<open>reduce\<close> method.
\<close>

definition objectPrototypeKeys :: "string list" where
  "objectPrototypeKeys =
     [''constructor'', ''__defineGetter__'', ''__defineSetter__'', ''hasOwnProperty'',
      ''__lookupGetter__'', ''__lookupSetter__'', ''isPrototypeOf'', ''propertyIsEnumerable'',
      ''toString'', ''valueOf'', ''__proto__'', ''toLocaleString'']"

datatype 'a property = Own 'a | Inherited | Missing

definition getProperty :: "(string \<times> 'a) list \<Rightarrow> string \<Rightarrow> 'a property" where
  "getProperty table key = (case map_of table key of
       Some v \<Rightarrow> Own v
     | None \<Rightarrow> if key \<in> set objectPrototypeKeys then Inherited else Missing)"

section \<open>getShapeAttributes\<close>

text \<open>
  \<^verbatim>\<open>
  export function getShapeAttributes(element) {
    const attributesMap = {
      circle: ["cx", "cy", "r"],
      ellipse: ["cx", "cy", "rx", "ry"],
      rect: ["x", "y", "width", "height", "rx", "ry"],
      line: ["x1", "y1", "x2", "y2"],
      polyline: ["points"],
      polygon: ["points"],
    };

    const shapeType = element.tagName.toLowerCase();
    const attributes = attributesMap[shapeType] || [];
    if (shapeType === "path") {
      return element.getAttribute("d");
    }

    return attributes.reduce((acc, attr) => {
      const value = element.getAttribute(attr);
      acc[attr] =
        value !== null
          ? attr === "points"
            ? parsePoints(value)
            : isNaN(value)
            ? value
            : parseFloat(value)
          : null;
      return acc;
    }, {});
  }
  \<close>
\<close>

definition attributesMap :: "(string \<times> string list) list" where
  "attributesMap =
     [(''circle'', [''cx'', ''cy'', ''r'']),
      (''ellipse'', [''cx'', ''cy'', ''rx'', ''ry'']),
      (''rect'', [''x'', ''y'', ''width'', ''height'', ''rx'', ''ry'']),
      (''line'', [''x1'', ''y1'', ''x2'', ''y2'']),
      (''polyline'', [''points'']),
      (''polygon'', [''points''])]"

definition pointsValue :: "jsnum list list \<Rightarrow> jsvalue" where
  "pointsValue pts = VArr (map (\<lambda>p. VArr (map VNum p)) pts)"

text \<open>The value the callback of \<^verbatim>\<open>reduce\<close> stores for one attribute name.\<close>

definition attributeValue :: "element \<Rightarrow> string \<Rightarrow> jsvalue" where
  "attributeValue element attr = (case getAttribute element attr of
       None \<Rightarrow> VNull
     | Some value \<Rightarrow>
         if attr = ''points'' then pointsValue (parsePoints value)
         else if isNaN value then VStr value
         else VNum (parseFloat value))"

definition getShapeAttributes :: "element \<Rightarrow> error + jsvalue" where
  "getShapeAttributes element =
     (let shapeType = toLowerCase (tagName element);
          attributes = getProperty attributesMap shapeType
      in if shapeType = ''path''
         then Inr (case getAttribute element ''d'' of None \<Rightarrow> VNull | Some d \<Rightarrow> VStr d)
         else (case attributes of
                 Inherited \<Rightarrow> Inl TypeError
               | Own attrs \<Rightarrow>
                   Inr (VObj (foldl (\<lambda>acc attr. AList.update attr (attributeValue element attr) acc)
                                [] attrs))
               | Missing \<Rightarrow> Inr (VObj [])))"

section \<open>parseGradient\<close>

text \<open>
  \<^verbatim>\<open>
  export function parseGradient(gradient) {
    if (!gradient) return null;
    const gradientAttributes = {
      linearGradient: ["x1", "y1", "x2", "y2"],
      radialGradient: ["cx", "cy", "r", "fx", "fy"],
    };
    const attrs = gradientAttributes[gradient.tagName] || [];
    const gradientDetails = attrs.reduce((acc, attr) => {
      acc[attr] = gradient.getAttribute(attr);
      return acc;
    }, {});
    const stops = Array.from(gradient.getElementsByTagName("stop")).map(
      (stop) => ({
        offset: stop.getAttribute("offset") || 0,
        color: stop.getAttribute("stop-color") || "#000000",
      })
    );
    return {
      type: gradient.tagName.replace("Gradient", "").toLowerCase(),
      ...gradientDetails,
      stops,
    };
  }
  \<close>
\<close>

definition gradientAttributes :: "(string \<times> string list) list" where
  "gradientAttributes =
     [(''linearGradient'', [''x1'', ''y1'', ''x2'', ''y2'']),
      (''radialGradient'', [''cx'', ''cy'', ''r'', ''fx'', ''fy''])]"

text \<open>\<^verbatim>\<open>el.getAttribute(name)\<close> as a value, and \<^verbatim>\<open>el.getAttribute(name) || dflt\<close>.\<close>

definition attributeOrNull :: "string option \<Rightarrow> jsvalue" where
  "attributeOrNull v = (case v of None \<Rightarrow> VNull | Some s \<Rightarrow> VStr s)"

definition attributeOr :: "string option \<Rightarrow> jsvalue \<Rightarrow> jsvalue" where
  "attributeOr v dflt = (case v of None \<Rightarrow> dflt | Some s \<Rightarrow> if s = [] then dflt else VStr s)"

definition stopRecord :: "element \<Rightarrow> jsvalue" where
  "stopRecord stop =
     VObj [(''offset'', attributeOr (getAttribute stop ''offset'') (VNum (Num 0))),
           (''color'', attributeOr (getAttribute stop ''stop-color'') (VStr ''#000000''))]"

text \<open>The object spread \<^verbatim>\<open>{...src}\<close> into an object under construction.\<close>

definition spread :: "(string \<times> jsvalue) list \<Rightarrow> (string \<times> jsvalue) list \<Rightarrow> (string \<times> jsvalue) list" where
  "spread obj src = foldl (\<lambda>acc (k, v). AList.update k v acc) obj src"

text \<open>The \<^verbatim>\<open>reduce\<close> that reads the geometry attributes as raw strings.\<close>

definition gradientDetails :: "element \<Rightarrow> string list \<Rightarrow> (string \<times> jsvalue) list" where
  "gradientDetails g names =
     foldl (\<lambda>acc attr. AList.update attr (attributeOrNull (getAttribute g attr)) acc) [] names"

definition parseGradient :: "element option \<Rightarrow> error + jsvalue" where
  "parseGradient gradient = (case gradient of
       None \<Rightarrow> Inr VNull
     | Some g \<Rightarrow>
         (case getProperty gradientAttributes (tagName g) of
            Inherited \<Rightarrow> Inl TypeError
          | found \<Rightarrow>
              (let attrs = (case found of Own names \<Rightarrow> names | _ \<Rightarrow> []);
                   details = gradientDetails g attrs;
                   stops = map stopRecord (getElementsByTagName g ''stop'')
               in Inr (VObj (AList.update ''stops'' (VArr stops)
                       (spread [(''type'', VStr (toLowerCase (replaceFirst ''Gradient'' [] (tagName g))))]
                          details))))))"

section \<open>getStyleAttributes\<close>

text \<open>
  \<^verbatim>\<open>
  export function getStyleAttributes(element) {
    const attributes = ["fill", "stroke", "stroke-width", "opacity", "transform", "clip-path"];
    const styles = {};

    // Parse inline style attribute and merge
    const inlineStyle = element.getAttribute("style");
    if (inlineStyle) {
      const styleObject = Object.fromEntries(
        inlineStyle
          .split(";")
          .filter(Boolean)
          .map((s) => s.split(":").map((part) => part.trim()))
      );
      Object.assign(styles, styleObject);
    }

    // Handle normal attributes and gradient references
    attributes.forEach((attr) => {
      const value = element.getAttribute(attr);
      if (!value || value === "none") return;

      if (value.startsWith("url(")) {
        const gradientId = value.match(/#(.*)\)/)?.[1];
        if (gradientId) {
          const gradient = element.ownerDocument.getElementById(gradientId);
          if (gradient) {
            styles[attr] = parseGradient(gradient); // your gradient parser
          }
        }
      } else {
        // Don't overwrite existing inline styles unless not already set
        if (!styles.hasOwnProperty(attr)) {
          styles[attr] = value;
        }
      }
    });

    return styles;
  }
  \<close>
\<close>

definition presentationAttributes :: "string list" where
  "presentationAttributes =
     [''fill'', ''stroke'', ''stroke-width'', ''opacity'', ''transform'', ''clip-path'']"

text \<open>
  One segment of the inline style as \<^verbatim>\<open>Object.fromEntries\<close> reads it: the segment is split
  at every colon and the pieces are trimmed; the first piece is the key, the second piece
  the value, \<^verbatim>\<open>undefined\<close> if there is none; further pieces are not read.
\<close>

definition styleEntry :: "string \<Rightarrow> string \<times> jsvalue" where
  "styleEntry seg = (case map trim (splitOn CHR '':'' seg) of
       [] \<Rightarrow> (''undefined'', VUndefined)
     | [k] \<Rightarrow> (k, VUndefined)
     | k # v # more \<Rightarrow> (k, VStr v))"

definition fromEntries :: "(string \<times> jsvalue) list \<Rightarrow> (string \<times> jsvalue) list" where
  "fromEntries entries = foldl (\<lambda>obj (k, v). AList.update k v obj) [] entries"

text \<open>
  \<^verbatim>\<open>Object.assign(target, src)\<close> assigns property by property. Assigning a string or
  \<^verbatim>\<open>undefined\<close> to \<^verbatim>\<open>__proto__\<close> runs the inherited setter, which ignores such values, so
  that name never becomes a property of the target.
\<close>

definition objectAssign :: "(string \<times> jsvalue) list \<Rightarrow> (string \<times> jsvalue) list \<Rightarrow> (string \<times> jsvalue) list" where
  "objectAssign target src =
     foldl (\<lambda>obj (k, v). if k = ''__proto__'' then obj else AList.update k v obj) target src"

definition inlineStyles :: "element \<Rightarrow> (string \<times> jsvalue) list" where
  "inlineStyles element = (case getAttribute element ''style'' of
       None \<Rightarrow> []
     | Some inlineStyle \<Rightarrow>
         if inlineStyle = [] then []
         else objectAssign []
                (fromEntries (map styleEntry (filter (\<lambda>s. s \<noteq> []) (splitOn CHR '';'' inlineStyle)))))"

text \<open>
  \<^verbatim>\<open>value.match(/#(.*)\)/)?.[1]\<close>: the match starts at the first \<^verbatim>\<open>#\<close> after which a \<^verbatim>\<open>)\<close>
  comes before any line terminator; the group is the text from there to the last such
  \<^verbatim>\<open>)\<close>. \<open>None\<close> stands for \<^verbatim>\<open>undefined\<close>.
\<close>

definition beforeLast :: "char \<Rightarrow> string \<Rightarrow> string" where
  "beforeLast c s = rev (tl (dropWhile (\<lambda>x. x \<noteq> c) (rev s)))"

fun matchGradientId :: "string \<Rightarrow> string option" where
  "matchGradientId [] = None"
| "matchGradientId (c # cs) =
     (if c = CHR ''#'' \<and> CHR '')'' \<in> set (takeWhile (\<lambda>x. \<not> isLineTerminator x) cs)
      then Some (beforeLast CHR '')'' (takeWhile (\<lambda>x. \<not> isLineTerminator x) cs))
      else matchGradientId cs)"

text \<open>
  \<^verbatim>\<open>styles.hasOwnProperty(attr)\<close>: the method is looked up on the object first, where a
  property of that name (a string or \<^verbatim>\<open>undefined\<close>, from the inline style) hides the
  inherited method and cannot be called.
\<close>

definition hasOwnProperty :: "(string \<times> jsvalue) list \<Rightarrow> string \<Rightarrow> error + bool" where
  "hasOwnProperty obj key =
     (if ''hasOwnProperty'' \<in> set (map fst obj) then Inl TypeError
      else Inr (key \<in> set (map fst obj)))"

text \<open>
  The body of the \<^verbatim>\<open>forEach\<close> callback for one attribute name. The owner document is
  \<open>None\<close> for an element-like node that has none; reading \<^verbatim>\<open>getElementById\<close> through it
  raises.
\<close>

definition styleStep ::
  "document option \<Rightarrow> element \<Rightarrow> (string \<times> jsvalue) list \<Rightarrow> string
     \<Rightarrow> error + (string \<times> jsvalue) list" where
  "styleStep ownerDocument element styles attr = (case getAttribute element attr of
       None \<Rightarrow> Inr styles
     | Some value \<Rightarrow>
         if value = [] \<or> value = ''none'' then Inr styles
         else if startsWith ''url('' value then
           (case matchGradientId value of
              None \<Rightarrow> Inr styles
            | Some gradientId \<Rightarrow>
                if gradientId = [] then Inr styles
                else (case ownerDocument of
                        None \<Rightarrow> Inl TypeError
                      | Some doc \<Rightarrow>
                          (case getElementById doc gradientId of
                             None \<Rightarrow> Inr styles
                           | Some gradient \<Rightarrow>
                               (case parseGradient (Some gradient) of
                                  Inl e \<Rightarrow> Inl e
                                | Inr g \<Rightarrow> Inr (AList.update attr g styles)))))
         else (case hasOwnProperty styles attr of
                 Inl e \<Rightarrow> Inl e
               | Inr present \<Rightarrow>
                   if present then Inr styles else Inr (AList.update attr (VStr value) styles)))"

fun forEach ::
  "('s \<Rightarrow> 'a \<Rightarrow> error + 's) \<Rightarrow> 'a list \<Rightarrow> 's \<Rightarrow> error + 's" where
  "forEach f [] s = Inr s"
| "forEach f (x # xs) s = (case f s x of Inl e \<Rightarrow> Inl e | Inr s' \<Rightarrow> forEach f xs s')"

definition getStyleAttributes ::
  "document option \<Rightarrow> element \<Rightarrow> error + (string \<times> jsvalue) list" where
  "getStyleAttributes ownerDocument element =
     forEach (styleStep ownerDocument element) presentationAttributes (inlineStyles element)"

section \<open>Example inputs\<close>

text \<open>
  A document with one linear gradient of two stops, and a rectangle whose \<^verbatim>\<open>fill\<close> refers
  to that gradient and whose \<^verbatim>\<open>stroke\<close> refers to a gradient that does not exist, both
  properties being set by the inline style as well.
\<close>

definition gradientDocument :: document where
  "gradientDocument = Document (Some
     (Element ''svg'' []
        [Element ''defs'' []
           [Element ''linearGradient'' [(''id'', ''g1''), (''x1'', ''0''), (''x2'', ''1'')]
              [Element ''stop'' [(''offset'', ''0''), (''stop-color'', ''red'')] [],
               Element ''stop'' [(''offset'', ''1'')] []]]]))"

definition gradientRect :: element where
  "gradientRect =
     Element ''rect''
       [(''style'', ''fill:red;stroke:blue''), (''fill'', ''url(#g1)''), (''stroke'', ''url(#g2)'')] []"


definition plainRect :: element where
  "plainRect =
     Element ''rect''
       [(''style'', ''fill:red;stroke:blue''), (''fill'', ''green''), (''opacity'', ''0.5''),
        (''x'', ''3'')] []"

section \<open>Properties of flattenShapes\<close>

lemma flattenShapes_append:
  "flattenShapes (xs @ ys) = flattenShapes xs @ flattenShapes ys"
  by (induction xs rule: flattenShapes.induct) auto

lemma flattenShapes_no_group:
  "e \<in> set (flattenShapes els) \<Longrightarrow> toLowerCase (tagName e) \<noteq> ''g''"
  by (induction els arbitrary: e rule: flattenShapes.induct) (auto split: if_splits)

lemma flattenShapes_length:
  "length (flattenShapes els) = sum_list (map countShapes els)"
  by (induction els rule: flattenShapes.induct) auto

lemma flattenShapes_concat:
  "flattenShapes els =
     concat (map (\<lambda>el. if toLowerCase (tagName el) = ''g''
                        then flattenShapes (children el) else [el]) els)"
  by (induction els rule: flattenShapes.induct) auto

text \<open>
  C3. For every sequence of element nodes, the result of \<open>flattenShapes\<close> holds no node
  whose lower-cased tag name is \<^verbatim>\<open>g\<close>; its length is the recursive count of the nodes that
  are not groups, groups being expanded at every depth; the nodes come in the order in
  which they are met: each node of the input contributes, in its place, itself or the
  flattening of its children, so that \<^verbatim>\<open>[A, G(B, C), D]\<close> gives \<^verbatim>\<open>[A, B, C, D]\<close>; and the
  empty input gives the empty output.
\<close>

theorem flattenShapes_spec:
  "(\<forall>e \<in> set (flattenShapes els). toLowerCase (tagName e) \<noteq> ''g'')
   \<and> length (flattenShapes els) = sum_list (map countShapes els)
   \<and> flattenShapes els =
       concat (map (\<lambda>el. if toLowerCase (tagName el) = ''g''
                          then flattenShapes (children el) else [el]) els)
   \<and> (toLowerCase (tagName a) \<noteq> ''g'' \<and> toLowerCase (tagName b) \<noteq> ''g''
        \<and> toLowerCase (tagName c) \<noteq> ''g'' \<and> toLowerCase (tagName d) \<noteq> ''g''
        \<and> toLowerCase t = ''g''
      \<longrightarrow> flattenShapes [a, Element t as [b, c], d] = [a, b, c, d])
   \<and> flattenShapes [] = []"
proof -
  have order: "flattenShapes [a, Element t as [b, c], d] = [a, b, c, d]"
    if "toLowerCase (tagName a) \<noteq> ''g''" "toLowerCase (tagName b) \<noteq> ''g''"
       "toLowerCase (tagName c) \<noteq> ''g''" "toLowerCase (tagName d) \<noteq> ''g''"
       "toLowerCase t = ''g''"
    using that by (cases a; cases b; cases c; cases d) simp
  have "\<forall>e \<in> set (flattenShapes els). toLowerCase (tagName e) \<noteq> ''g''"
    using flattenShapes_no_group by blast
  moreover note flattenShapes_length [of els] flattenShapes_concat [of els]
  moreover have "flattenShapes [] = []"
    by simp
  ultimately show ?thesis
    using order by (intro conjI impI) blast+
qed

theorem flattenShapes_spec_witness:
  "flattenShapes
     [Element ''circle'' [] [],
      Element ''G'' [] [Element ''rect'' [] [], Element ''g'' [] [Element ''line'' [] []]],
      Element ''path'' [] []]
   = [Element ''circle'' [] [], Element ''rect'' [] [], Element ''line'' [] [],
      Element ''path'' [] []]
   \<and> flattenShapes
       [Element ''circle'' [] [], Element ''G'' [] [Element ''rect'' [] [], Element ''line'' [] []],
        Element ''path'' [] []]
     = [Element ''circle'' [] [], Element ''rect'' [] [], Element ''line'' [] [],
        Element ''path'' [] []]
   \<and> list_all (\<lambda>e. toLowerCase (tagName e) \<noteq> ''g'')
        (flattenShapes
          [Element ''circle'' [] [],
           Element ''G'' [] [Element ''rect'' [] [], Element ''g'' [] [Element ''line'' [] []]],
           Element ''path'' [] []])"
proof -
  have lower: "toLowerCase ''circle'' \<noteq> ''g''" "toLowerCase ''rect'' \<noteq> ''g''"
    "toLowerCase ''line'' \<noteq> ''g''" "toLowerCase ''path'' \<noteq> ''g''" "toLowerCase ''G'' = ''g''"
    "toLowerCase ''g'' = ''g''"
    by code_simp+
  have nested: "flattenShapes
     [Element ''circle'' [] [],
      Element ''G'' [] [Element ''rect'' [] [], Element ''g'' [] [Element ''line'' [] []]],
      Element ''path'' [] []]
   = [Element ''circle'' [] [], Element ''rect'' [] [], Element ''line'' [] [],
      Element ''path'' [] []]"
    using lower by simp
  from flattenShapes_spec
    [of "[Element ''circle'' [] [],
          Element ''G'' [] [Element ''rect'' [] [], Element ''g'' [] [Element ''line'' [] []]],
          Element ''path'' [] []]"
        "Element ''circle'' [] []" "Element ''rect'' [] []" "Element ''line'' [] []"
        "Element ''path'' [] []" "''G''" "[]"]
  show ?thesis
    using lower nested by simp
qed

section \<open>Properties of the string functions\<close>

lemma splitOn_nonempty: "splitOn sep s \<noteq> []"
  by (induction s) (auto split: list.splits)

lemma splitWhiteSpace_nonempty: "splitWhiteSpace s \<noteq> []"
  by (induction s rule: splitWhiteSpace.induct) (auto split: list.splits)

lemma trim_whitespace: "\<forall>c \<in> set s. isWhiteSpace c \<Longrightarrow> trim s = []"
proof -
  assume "\<forall>c \<in> set s. isWhiteSpace c"
  then have blank: "dropWhile isWhiteSpace s = []"
    by simp
  show ?thesis
    unfolding trim_def blank by simp
qed

lemma trim_padding:
  assumes "body \<noteq> []" "\<not> isWhiteSpace (hd body)" "\<not> isWhiteSpace (last body)"
    and "\<forall>c \<in> set pre. isWhiteSpace c" "\<forall>c \<in> set post. isWhiteSpace c"
  shows "trim (pre @ body @ post) = body"
proof -
  have front: "dropWhile isWhiteSpace (pre @ body @ post) = body @ post"
    using assms by (cases body) (simp_all add: dropWhile_append3)
  have behind: "dropWhile isWhiteSpace (rev post @ rev body) = rev body"
    using assms by (cases "rev body") (auto simp: dropWhile_append3 last_rev hd_rev)
  show ?thesis
    by (simp add: trim_def front behind)
qed

lemma splitWhiteSpace_word:
  "\<forall>c \<in> set t. \<not> isWhiteSpace c \<Longrightarrow>
   splitWhiteSpace (t @ rest) = (t @ hd (splitWhiteSpace rest)) # tl (splitWhiteSpace rest)"
  using splitWhiteSpace_nonempty [of rest]
  by (induction t) (auto split: list.splits)

lemma splitWhiteSpace_run:
  assumes "isSeparator w" "rest = [] \<or> \<not> isWhiteSpace (hd rest)"
  shows "splitWhiteSpace (w @ rest) = [] # splitWhiteSpace rest"
proof -
  obtain c w' where w: "w = c # w'" "isWhiteSpace c" "\<forall>x \<in> set w'. isWhiteSpace x"
    using assms(1) by (cases w) (auto simp: isSeparator_def)
  have "dropWhile isWhiteSpace (w' @ rest) = rest"
    using w(3) assms(2) by (cases rest) (simp_all add: dropWhile_append3)
  then show ?thesis
    using w by simp
qed

lemma joinTokens_head:
  "isToken lastToken \<Longrightarrow> \<forall>p \<in> set tws. isToken (fst p) \<Longrightarrow>
   joinTokens tws lastToken \<noteq> [] \<and> \<not> isWhiteSpace (hd (joinTokens tws lastToken))"
  by (cases tws) (auto simp: isToken_def)

lemma joinTokens_last:
  "isToken lastToken \<Longrightarrow>
   joinTokens tws lastToken \<noteq> [] \<and> \<not> isWhiteSpace (last (joinTokens tws lastToken))"
  by (induction tws) (auto simp: isToken_def)

lemma splitWhiteSpace_joinTokens:
  assumes "isToken lastToken" "\<forall>p \<in> set tws. isToken (fst p) \<and> isSeparator (snd p)"
  shows "splitWhiteSpace (joinTokens tws lastToken) = map fst tws @ [lastToken]"
  using assms
proof (induction tws)
  case Nil
  then show ?case
    using splitWhiteSpace_word [of lastToken "[]"] by (simp add: isToken_def)
next
  case (Cons p tws)
  obtain t w where p: "p = (t, w)" by (cases p)
  let ?rest = "joinTokens tws lastToken"
  have hd: "?rest = [] \<or> \<not> isWhiteSpace (hd ?rest)"
    using joinTokens_head [of lastToken tws] Cons.prems by simp
  have "splitWhiteSpace (t @ w @ ?rest)
        = (t @ hd (splitWhiteSpace (w @ ?rest))) # tl (splitWhiteSpace (w @ ?rest))"
    using Cons.prems p by (intro splitWhiteSpace_word) (simp add: isToken_def)
  also have "\<dots> = t # splitWhiteSpace ?rest"
    using splitWhiteSpace_run [of w ?rest] hd Cons.prems p by simp
  finally show ?case
    using Cons p by simp
qed

lemma splitOn_length: "length (splitOn sep s) = Suc (count_list s sep)"
  using splitOn_nonempty [of sep]
  by (induction s) (auto split: list.splits)

lemma splitOn_piece:
  "sep \<notin> set p \<Longrightarrow> splitOn sep (p @ sep # rest) = p # splitOn sep rest"
  using splitOn_nonempty [of sep]
  by (induction p) (auto split: list.splits)

lemma splitOn_single: "sep \<notin> set p \<Longrightarrow> splitOn sep p = [p]"
  by (induction p) (auto split: list.splits)
lemma splitWhiteSpace_tokens:
  "\<forall>t \<in> set (splitWhiteSpace s). \<forall>c \<in> set t. \<not> isWhiteSpace c"
proof (induction s rule: splitWhiteSpace.induct)
  case 1
  then show ?case by simp
next
  case (2 c cs)
  show ?case
  proof (cases "isWhiteSpace c")
    case True
    with 2 show ?thesis by simp
  next
    case False
    obtain piece pieces where split: "splitWhiteSpace cs = piece # pieces"
      using splitWhiteSpace_nonempty [of cs] by (cases "splitWhiteSpace cs") auto
    with 2 False show ?thesis by auto
  qed
qed

section \<open>Properties of parsePoints\<close>

text \<open>
  C6. \<open>parsePoints\<close> trims the white space around the string, splits at the runs of white
  space, splits each token at the commas and converts each piece with \<open>Number\<close>: on a
  string made of tokens \<open>t\<^sub>1 \<dots> t\<^sub>n\<close> separated by runs of white space, with white space
  before and after, the result is the sequence of the sequences
  \<open>map Number (splitOn CHR '','' t\<^sub>i)\<close>. On any string, no token holds white space, and the
  inner sequence of a token has one number more than the token has commas, so tokens
  with different comma counts give inner sequences of different lengths.
  \<^verbatim>\<open>parsePoints("0,0 10,10 20,0")\<close> is \<^verbatim>\<open>[[0,0],[10,10],[20,0]]\<close>, and a piece that is
  not numeric gives \<open>NaN\<close> at its place, not an error.
\<close>

theorem parsePoints_spec:
  assumes "isToken lastToken" "\<forall>p \<in> set tws. isToken (fst p) \<and> isSeparator (snd p)"
    and "\<forall>c \<in> set pre. isWhiteSpace c" "\<forall>c \<in> set post. isWhiteSpace c"
  shows "parsePoints (pre @ joinTokens tws lastToken @ post)
         = map (\<lambda>p. map Number (splitOn CHR '','' p)) (map fst tws @ [lastToken])
     \<and> (\<forall>t \<in> set (splitWhiteSpace (trim s)). \<forall>c \<in> set t. \<not> isWhiteSpace c)
     \<and> length (parsePoints s) = length (splitWhiteSpace (trim s))
     \<and> (\<forall>i < length (parsePoints s).
          length (parsePoints s ! i) = Suc (count_list (splitWhiteSpace (trim s) ! i) CHR '',''))
     \<and> parsePoints ''0,0 10,10 20,0'' = [[Num 0, Num 0], [Num 10, Num 10], [Num 20, Num 0]]
     \<and> parsePoints ''1,x 2,3,4'' = [[Num 1, NaN], [Num 2, Num 3, Num 4]]"
proof -
  have "trim (pre @ joinTokens tws lastToken @ post) = joinTokens tws lastToken"
    using assms joinTokens_head [of lastToken tws] joinTokens_last [of lastToken tws]
    by (intro trim_padding) auto
  then have tokens: "parsePoints (pre @ joinTokens tws lastToken @ post)
         = map (\<lambda>p. map Number (splitOn CHR '','' p)) (map fst tws @ [lastToken])"
    using splitWhiteSpace_joinTokens [OF assms(1,2)] by (simp add: parsePoints_def)
  have clean: "\<forall>t \<in> set (splitWhiteSpace (trim s)). \<forall>c \<in> set t. \<not> isWhiteSpace c"
    using splitWhiteSpace_tokens by blast
  have len: "length (parsePoints s) = length (splitWhiteSpace (trim s))"
    by (simp add: parsePoints_def)
  have inner: "\<forall>i < length (parsePoints s).
      length (parsePoints s ! i) = Suc (count_list (splitWhiteSpace (trim s) ! i) CHR '','')"
    by (simp add: parsePoints_def splitOn_length)
  have ex1: "parsePoints ''0,0 10,10 20,0'' = [[Num 0, Num 0], [Num 10, Num 10], [Num 20, Num 0]]"
    by code_simp
  have ex2: "parsePoints ''1,x 2,3,4'' = [[Num 1, NaN], [Num 2, Num 3, Num 4]]"
    by code_simp
  show ?thesis
    using tokens clean len inner ex1 ex2 by (intro conjI)
qed

theorem parsePoints_spec_witness:
  "parsePoints ('' '' @ joinTokens [(''0,0'', '' ''), (''10,x'', [CHR 0x09, CHR 0x0A])] ''20,0,5'' @ ''  '')
   = [[Num 0, Num 0], [Num 10, NaN], [Num 20, Num 0, Num 5]]"
proof -
  have h1: "isToken ''20,0,5''"
    by code_simp
  have h2: "\<forall>p \<in> set [(''0,0'', '' ''), (''10,x'', [CHR 0x09, CHR 0x0A])].
              isToken (fst p) \<and> isSeparator (snd p)"
    by code_simp
  have h3: "\<forall>c \<in> set '' ''. isWhiteSpace c" "\<forall>c \<in> set ''  ''. isWhiteSpace c"
    by code_simp+
  have vals: "map (\<lambda>p. map Number (splitOn CHR '','' p))
                (map fst [(''0,0'', '' ''), (''10,x'', [CHR 0x09, CHR 0x0A])] @ [''20,0,5''])
              = [[Num 0, Num 0], [Num 10, NaN], [Num 20, Num 0, Num 5]]"
    by code_simp
  from parsePoints_spec [OF h1 h2 h3, of "[]"] show ?thesis
    unfolding vals by blast
qed

text \<open>
  C10. On the empty string and on a string of white space only, \<open>parsePoints\<close> does not
  give the empty sequence but \<^verbatim>\<open>[[0]]\<close>: the trimmed string is empty, splitting the empty
  string at white space gives one empty token, splitting that at the commas gives one
  empty piece, and \<open>Number\<close> of the empty string is 0.
\<close>

theorem parsePoints_blank:
  assumes "\<forall>c \<in> set s. isWhiteSpace c"
  shows "parsePoints s = [[Num 0]] \<and> parsePoints s \<noteq> [] \<and> trim s = []
         \<and> splitWhiteSpace [] = [[]] \<and> splitOn CHR '','' [] = [[]] \<and> Number [] = Num 0"
proof -
  have zero: "Number [] = Num 0"
    by (simp add: Number_def trim_def)
  then show ?thesis
    using assms by (simp add: parsePoints_def trim_whitespace)
qed

theorem parsePoints_blank_witness:
  "parsePoints '''' = [[Num 0]] \<and> parsePoints [CHR 0x20, CHR 0x09, CHR 0x0A, CHR 0xA0] = [[Num 0]]"
proof -
  have h1: "\<forall>c \<in> set ''''. isWhiteSpace c"
    by simp
  have h2: "\<forall>c \<in> set [CHR 0x20, CHR 0x09, CHR 0x0A, CHR 0xA0]. isWhiteSpace c"
    by code_simp
  from parsePoints_blank [OF h1] parsePoints_blank [OF h2] show ?thesis
    by blast
qed

section \<open>Properties of the numeric conversions\<close>

lemma whiteSpace_chars:
  assumes "isWhiteSpace c"
  shows "\<not> isDigit c" "c \<noteq> CHR ''.''" "c \<noteq> CHR ''e''" "c \<noteq> CHR ''E''"
    "c \<noteq> CHR ''+''" "c \<noteq> CHR ''-''" "c \<noteq> CHR ''I''"
  using assms by (auto simp: isWhiteSpace_def isDigit_def)

lemma span_append:
  assumes "w = [] \<or> \<not> P (hd w)"
  shows "takeWhile P (s @ w) = takeWhile P s" "dropWhile P (s @ w) = dropWhile P s @ w"
  using assms by (induction s) (auto simp: takeWhile_eq_Nil_iff dropWhile_eq_self_iff)

lemma startsWith_append: "startsWith p s \<Longrightarrow> startsWith p (s @ w)"
  by (induction p s rule: startsWith.induct) auto

lemma startsWith_length: "startsWith p s \<Longrightarrow> length p \<le> length s"
  by (induction p s rule: startsWith.induct) auto

lemma scanExponent_other:
  "c \<noteq> CHR ''e'' \<Longrightarrow> c \<noteq> CHR ''E'' \<Longrightarrow> scanExponent (c # r0) = (0, c # r0)"
  by (simp add: scanExponent_def)

lemma scanExponent_marker:
  assumes "c = CHR ''e'' \<or> c = CHR ''E''"
    and "r' = (if r0 \<noteq> [] \<and> (hd r0 = CHR ''+'' \<or> hd r0 = CHR ''-'') then tl r0 else r0)"
  shows "scanExponent (c # r0) =
     (if takeWhile isDigit r' = [] then (0, c # r0)
      else ((if r0 \<noteq> [] \<and> hd r0 = CHR ''-'' then - int (digitsValue 10 (takeWhile isDigit r'))
             else int (digitsValue 10 (takeWhile isDigit r'))),
            dropWhile isDigit r'))"
  unfolding scanExponent_def Let_def list.case assms(2) using assms(1) by (simp only: if_True)

lemma scanExponent_append:
  assumes "scanExponent r = (e, [])" "\<forall>c \<in> set w. isWhiteSpace c"
  shows "scanExponent (r @ w) = (e, w)"
proof (cases r)
  case Nil
  show ?thesis
  proof (cases w)
    case Nil
    then show ?thesis using assms(1) \<open>r = []\<close> by simp
  next
    case (Cons d ds)
    then have "d \<noteq> CHR ''e''" "d \<noteq> CHR ''E''"
      using assms(2) whiteSpace_chars [of d] by auto
    then have "scanExponent (d # ds) = (0, d # ds)"
      by (rule scanExponent_other)
    moreover have "e = 0"
      using assms(1) \<open>r = []\<close> by (simp add: scanExponent_def)
    ultimately show ?thesis
      using Cons \<open>r = []\<close> by simp
  qed
next
  case (Cons c r0)
  have wd: "w = [] \<or> \<not> isDigit (hd w)"
    using assms(2) whiteSpace_chars(1) by (cases w) auto
  have marker: "c = CHR ''e'' \<or> c = CHR ''E''"
  proof (rule ccontr)
    assume "\<not> (c = CHR ''e'' \<or> c = CHR ''E'')"
    then have "scanExponent (c # r0) = (0, c # r0)"
      using scanExponent_other by blast
    then show False
      using assms(1) Cons by simp
  qed
  define r' where "r' = (if r0 \<noteq> [] \<and> (hd r0 = CHR ''+'' \<or> hd r0 = CHR ''-'') then tl r0 else r0)"
  define ds where "ds = takeWhile isDigit r'"
  define neg where "neg = (r0 \<noteq> [] \<and> hd r0 = CHR ''-'')"
  have one: "scanExponent (c # r0) =
     (if ds = [] then (0, c # r0)
      else ((if neg then - int (digitsValue 10 ds) else int (digitsValue 10 ds)),
            dropWhile isDigit r'))"
    unfolding ds_def neg_def by (rule scanExponent_marker [OF marker r'_def])
  have ds: "ds \<noteq> []"
  proof
    assume "ds = []"
    then have "scanExponent (c # r0) = (0, c # r0)"
      using one by simp
    then show False
      using assms(1) Cons by simp
  qed
  then have result: "e = (if neg then - int (digitsValue 10 ds) else int (digitsValue 10 ds))"
      "dropWhile isDigit r' = []"
    using one assms(1) Cons by simp_all
  have "r' \<noteq> []"
    using ds unfolding ds_def by auto
  then have r0: "r0 \<noteq> []"
    unfolding r'_def by (auto split: if_splits)
  then have shape: "(if r0 @ w \<noteq> [] \<and> (hd (r0 @ w) = CHR ''+'' \<or> hd (r0 @ w) = CHR ''-'')
         then tl (r0 @ w) else r0 @ w) = r' @ w"
    unfolding r'_def by simp
  have neg': "(r0 @ w \<noteq> [] \<and> hd (r0 @ w) = CHR ''-'') = neg"
    unfolding neg_def using r0 by simp
  have spans: "takeWhile isDigit (r' @ w) = ds" "dropWhile isDigit (r' @ w) = w"
    using span_append [where P = isDigit and s = r', OF wd] result(2)
    unfolding ds_def by simp_all
  have "scanExponent (c # (r0 @ w)) =
     (if takeWhile isDigit (r' @ w) = [] then (0, c # (r0 @ w))
      else ((if r0 @ w \<noteq> [] \<and> hd (r0 @ w) = CHR ''-''
             then - int (digitsValue 10 (takeWhile isDigit (r' @ w)))
             else int (digitsValue 10 (takeWhile isDigit (r' @ w)))),
            dropWhile isDigit (r' @ w)))"
    by (rule scanExponent_marker [OF marker shape [symmetric]])
  then have "scanExponent (c # (r0 @ w)) = (e, w)"
    unfolding spans neg' using ds result(1) by simp
  then show ?thesis
    using Cons by simp
qed

lemma withExponent_append:
  assumes "withExponent ip fp r = Some (v, [])" "\<forall>c \<in> set w. isWhiteSpace c"
  shows "withExponent ip fp (r @ w) = Some (v, w)"
proof -
  obtain e rest where e: "scanExponent r = (e, rest)"
    by (cases "scanExponent r")
  with assms(1) have "rest = []"
    by (simp add: withExponent_def)
  with e assms show ?thesis
    using scanExponent_append [of r e w] by (simp add: withExponent_def)
qed

lemma scanUnsigned_afterDigits:
  "\<not> startsWith ''Infinity'' s \<Longrightarrow>
   scanUnsigned s = afterDigits (takeWhile isDigit s) (dropWhile isDigit s)"
  by (simp add: scanUnsigned_def)

lemma afterDigits_append:
  assumes "afterDigits ip r1 = Some (v, [])" "\<forall>c \<in> set w. isWhiteSpace c"
  shows "afterDigits ip (r1 @ w) = Some (v, w)"
proof -
  have wd: "w = [] \<or> \<not> isDigit (hd w)"
    using assms(2) by (cases w) (auto simp: whiteSpace_chars)
  have wp: "w = [] \<or> hd w \<noteq> CHR ''.''"
    using assms(2) by (cases w) (auto simp: whiteSpace_chars)
  show ?thesis
  proof (cases r1)
    case Nil
    then have ip: "ip \<noteq> []" "withExponent ip [] [] = Some (v, [])"
      using assms(1) by (auto simp: afterDigits_def split: if_splits)
    have "afterDigits ip w = withExponent ip [] w"
      using wp ip(1) by (auto simp: afterDigits_def)
    then show ?thesis
      using Nil withExponent_append [OF ip(2) assms(2)] by simp
  next
    case (Cons d ds)
    show ?thesis
    proof (cases "d = CHR ''.''")
      case True
      define fp where "fp = takeWhile isDigit ds"
      define r2 where "r2 = dropWhile isDigit ds"
      have spans: "takeWhile isDigit (ds @ w) = fp" "dropWhile isDigit (ds @ w) = r2 @ w"
        using span_append [where P = isDigit and s = ds, OF wd] by (simp_all add: fp_def r2_def)
      have ok: "\<not> (ip = [] \<and> fp = [])" "withExponent ip fp r2 = Some (v, [])"
        using assms(1) Cons True
        by (auto simp: afterDigits_def fp_def r2_def split: if_splits)
      have "afterDigits ip (r1 @ w) = withExponent ip fp (r2 @ w)"
        using Cons True ok(1) by (auto simp: afterDigits_def spans simp del: takeWhile_eq_Nil_iff)
      then show ?thesis
        using withExponent_append [OF ok(2) assms(2)] by simp
    next
      case False
      then have ok: "ip \<noteq> []" "withExponent ip [] r1 = Some (v, [])"
        using assms(1) Cons by (auto simp: afterDigits_def split: if_splits)
      have "afterDigits ip (r1 @ w) = withExponent ip [] (r1 @ w)"
        using Cons False ok(1) by (simp add: afterDigits_def)
      then show ?thesis
        using withExponent_append [OF ok(2) assms(2)] by simp
    qed
  qed
qed

lemma scanUnsigned_append:
  assumes "scanUnsigned s = Some (v, [])" "\<forall>c \<in> set w. isWhiteSpace c"
  shows "scanUnsigned (s @ w) = Some (v, w)"
proof (cases "startsWith ''Infinity'' s")
  case True
  then have "length s = 8"
    using assms(1) startsWith_length [of "''Infinity''" s] by (simp add: scanUnsigned_def)
  then show ?thesis
    using True assms(1) startsWith_append [OF True, of w] by (simp add: scanUnsigned_def)
next
  case False
  have wd: "w = [] \<or> \<not> isDigit (hd w)"
    using assms(2) by (cases w) (auto simp: whiteSpace_chars)
  have nostart: "\<not> startsWith ''Infinity'' (s @ w)"
  proof (cases s)
    case Nil
    then show ?thesis
      using assms(1) by (simp add: scanUnsigned_def afterDigits_def)
  next
    case (Cons c cs)
    have "isDigit c \<or> c = CHR ''.''"
    proof (rule ccontr)
      assume "\<not> (isDigit c \<or> c = CHR ''.'')"
      then have "afterDigits (takeWhile isDigit s) (dropWhile isDigit s) = None"
        using Cons by (simp add: afterDigits_def)
      then show False
        using assms(1) False by (simp add: scanUnsigned_def)
    qed
    then show ?thesis
      using Cons by (auto simp: isDigit_def)
  qed
  have "afterDigits (takeWhile isDigit s) (dropWhile isDigit s) = Some (v, [])"
    using assms(1) scanUnsigned_afterDigits [OF False] by simp
  then have "afterDigits (takeWhile isDigit s) (dropWhile isDigit s @ w) = Some (v, w)"
    using assms(2) by (rule afterDigits_append)
  then show ?thesis
    using scanUnsigned_afterDigits [OF nostart] span_append [where P = isDigit and s = s, OF wd]
    by simp
qed

lemma scanDecimal_append:
  assumes "scanDecimal s = Some (v, [])" "\<forall>c \<in> set w. isWhiteSpace c"
  shows "scanDecimal (s @ w) = Some (v, w)"
proof (cases s)
  case Nil
  then show ?thesis using assms by (simp add: scanDecimal_def)
next
  case (Cons c r)
  show ?thesis
  proof (cases "c = CHR ''+''")
    case True
    then show ?thesis
      using assms Cons scanUnsigned_append [of r v w] by (simp add: scanDecimal_def)
  next
    case plus: False
    show ?thesis
    proof (cases "c = CHR ''-''")
      case True
      then obtain u where "scanUnsigned r = Some (u, [])" "v = negate u"
        using assms(1) Cons by (auto simp: scanDecimal_def)
      then show ?thesis
        using True assms(2) Cons scanUnsigned_append [of r u w] by (simp add: scanDecimal_def)
    next
      case False
      then show ?thesis
        using plus assms Cons scanUnsigned_append [of s v w] by (simp add: scanDecimal_def)
    qed
  qed
qed

lemma scanUnsigned_not_NaN: "scanUnsigned s = Some (v, rest) \<Longrightarrow> v \<noteq> NaN \<and> v \<noteq> NegInfinity \<and> v \<noteq> NegZero"
  by (auto simp: scanUnsigned_def afterDigits_def withExponent_def Let_def split: if_splits prod.splits)

lemma negate_not_NaN: "negate u = NaN \<Longrightarrow> u = NaN"
  by (cases u) (auto simp: negate_def split: if_splits)

lemma scanDecimal_not_NaN:
  assumes "scanDecimal s = Some (v, rest)"
  shows "v \<noteq> NaN"
proof (cases s)
  case Nil
  then show ?thesis using assms by (simp add: scanDecimal_def)
next
  case (Cons c r)
  then consider "scanUnsigned r = Some (v, rest)"
    | u where "scanUnsigned r = Some (u, rest)" "v = negate u"
    | "scanUnsigned s = Some (v, rest)"
    using assms by (auto simp: scanDecimal_def split: if_splits)
  then show ?thesis
  proof cases
    case 1
    then show ?thesis using scanUnsigned_not_NaN by blast
  next
    case 2
    then show ?thesis
      using scanUnsigned_not_NaN [of r u rest] negate_not_NaN [of u] by auto
  next
    case 3
    then show ?thesis using scanUnsigned_not_NaN by blast
  qed
qed

lemma dropWhile_trim:
  "\<exists>w. dropWhile isWhiteSpace v = trim v @ w \<and> (\<forall>c \<in> set w. isWhiteSpace c)"
proof -
  let ?u = "dropWhile isWhiteSpace v"
  have "trim v @ rev (takeWhile isWhiteSpace (rev ?u))
        = rev (takeWhile isWhiteSpace (rev ?u) @ dropWhile isWhiteSpace (rev ?u))"
    by (simp only: trim_def rev_append)
  also have "\<dots> = ?u"
    by (simp only: takeWhile_dropWhile_id rev_rev_ident)
  finally have "?u = trim v @ rev (takeWhile isWhiteSpace (rev ?u))"
    by simp
  moreover have "\<forall>c \<in> set (rev (takeWhile isWhiteSpace (rev ?u))). isWhiteSpace c"
    by (auto dest: set_takeWhileD)
  ultimately show ?thesis by blast
qed

lemma decimal_literal:
  assumes "scanDecimal (trim v) = Some (n, [])"
  shows "Number v = n" "parseFloat v = n" "n \<noteq> NaN"
proof -
  have "trim v \<noteq> []"
    using assms by (auto simp: scanDecimal_def)
  then show "Number v = n"
    using assms by (simp add: Number_def)
  obtain w where w: "dropWhile isWhiteSpace v = trim v @ w" "\<forall>c \<in> set w. isWhiteSpace c"
    using dropWhile_trim by blast
  show "parseFloat v = n"
    using scanDecimal_append [OF assms w(2)] w(1) by (simp add: parseFloat_def)
  show "n \<noteq> NaN"
    using assms scanDecimal_not_NaN by blast
qed

section \<open>Properties of getShapeAttributes\<close>

lemma map_of_reduce:
  "map_of (foldl (\<lambda>acc attr. AList.update attr (f attr) acc) init attrs) k
   = (if k \<in> set attrs then Some (f k) else map_of init k)"
  by (induction attrs arbitrary: init) (auto simp: update_conv')

lemma keys_reduce:
  "distinct attrs \<Longrightarrow> set attrs \<inter> set (map fst init) = {} \<Longrightarrow>
   map fst (foldl (\<lambda>acc attr. AList.update attr (f attr) acc) init attrs) = map fst init @ attrs"
proof (induction attrs arbitrary: init)
  case Nil
  then show ?case by simp
next
  case (Cons a attrs)
  have fresh: "set attrs \<inter> set (map fst (AList.update a (f a) init)) = {}"
    using Cons.prems by (auto simp: dom_update)
  have "map fst (AList.update a (f a) init) = map fst init @ [a]"
    using Cons.prems by (simp add: update_keys)
  then show ?case
    using Cons.IH [OF _ fresh] Cons.prems by simp
qed

lemma attributesMap_distinct:
  assumes "map_of attributesMap t = Some attrs"
  shows "distinct attrs"
proof -
  have "\<forall>p \<in> set attributesMap. distinct (snd p)"
    by (simp add: attributesMap_def)
  moreover have "(t, attrs) \<in> set attributesMap"
    using assms by (rule map_of_SomeD)
  ultimately show ?thesis
    by fastforce
qed

lemma attributesMap_not_path: "map_of attributesMap ''path'' = None"
  by (simp add: attributesMap_def)

lemma getShapeAttributes_table:
  assumes "map_of attributesMap (toLowerCase (tagName el)) = Some attrs"
  shows "getShapeAttributes el
         = Inr (VObj (foldl (\<lambda>acc attr. AList.update attr (attributeValue el attr) acc) [] attrs))"
proof -
  have "toLowerCase (tagName el) \<noteq> ''path''"
    using assms attributesMap_not_path by auto
  then show ?thesis
    using assms by (simp add: getShapeAttributes_def getProperty_def)
qed

lemma getShapeAttributes_keys:
  assumes "map_of attributesMap (toLowerCase (tagName el)) = Some attrs"
  shows "\<exists>r. getShapeAttributes el = Inr (VObj r) \<and> map fst r = attrs"
  using getShapeAttributes_table [OF assms] attributesMap_distinct [OF assms]
  by (simp add: keys_reduce)

lemma getShapeAttributes_path:
  assumes "toLowerCase (tagName el) = ''path''"
  shows "getShapeAttributes el
         = Inr (case getAttribute el ''d'' of None \<Rightarrow> VNull | Some d \<Rightarrow> VStr d)"
  using assms by (simp add: getShapeAttributes_def)

lemma getShapeAttributes_other:
  assumes "map_of attributesMap (toLowerCase (tagName el)) = None"
    and "toLowerCase (tagName el) \<noteq> ''path''"
    and "toLowerCase (tagName el) \<notin> set objectPrototypeKeys"
  shows "getShapeAttributes el = Inr (VObj [])"
  using assms by (simp add: getShapeAttributes_def getProperty_def)

lemma getShapeAttributes_inherited:
  assumes "toLowerCase (tagName el) \<in> set objectPrototypeKeys"
  shows "getShapeAttributes el = Inl TypeError"
proof -
  have "\<forall>k \<in> set objectPrototypeKeys. map_of attributesMap k = None \<and> k \<noteq> ''path''"
    by code_simp
  then have "map_of attributesMap (toLowerCase (tagName el)) = None"
    "toLowerCase (tagName el) \<noteq> ''path''"
    using assms by blast+
  then show ?thesis
    using assms by (simp add: getShapeAttributes_def getProperty_def)
qed

text \<open>
  C4. For an element whose lower-cased tag name is in the shape table the result is a
  record whose keys are the attribute list of that tag, and for \<^verbatim>\<open>path\<close> it is the raw value
  of \<^verbatim>\<open>d\<close> or \<^verbatim>\<open>null\<close> (lemmas \<open>getShapeAttributes_keys\<close> and \<open>getShapeAttributes_path\<close>).
  For another tag the claim promises an empty record, and the code gives one
  (\<open>getShapeAttributes_other\<close>) unless the lower-cased tag name is a property that the
  table inherits from \<^verbatim>\<open>Object.prototype\<close>: \<^verbatim>\<open>attributesMap["constructor"]\<close> is a function, the
  default \<^verbatim>\<open>|| []\<close> does not apply, and \<^verbatim>\<open>attributes.reduce\<close> is not a function. On the
  element \<^verbatim>\<open><constructor/>\<close> the call raises a TypeError instead of returning \<^verbatim>\<open>{}\<close>.
\<close>

theorem getShapeAttributes_constructor_raises:
  "getShapeAttributes (Element ''constructor'' [] []) = Inl TypeError
   \<and> getShapeAttributes (Element ''constructor'' [] []) \<noteq> Inr (VObj [])"
  by code_simp

text \<open>
  What the code stores for a listed attribute of a shape that is not a path: \<^verbatim>\<open>null\<close> if
  the attribute is absent; the parsed points if the attribute is \<^verbatim>\<open>points\<close>; otherwise the
  raw string if the numeric coercion of the value fails (\<^verbatim>\<open>isNaN\<close>), and \<^verbatim>\<open>parseFloat(value)\<close>
  if it passes. If the trimmed value is a decimal literal, it passes and the number it
  denotes is stored.
\<close>

lemma attribute_resolution:
  assumes "map_of attributesMap (toLowerCase (tagName el)) = Some attrs" and "attr \<in> set attrs"
  shows "\<exists>r. getShapeAttributes el = Inr (VObj r)
     \<and> (getAttribute el attr = None \<longrightarrow> map_of r attr = Some VNull)
     \<and> (\<forall>v. getAttribute el attr = Some v \<and> attr = ''points''
            \<longrightarrow> map_of r attr = Some (pointsValue (parsePoints v)))
     \<and> (\<forall>v. getAttribute el attr = Some v \<and> attr \<noteq> ''points'' \<and> isNaN v
            \<longrightarrow> map_of r attr = Some (VStr v))
     \<and> (\<forall>v. getAttribute el attr = Some v \<and> attr \<noteq> ''points'' \<and> \<not> isNaN v
            \<longrightarrow> map_of r attr = Some (VNum (parseFloat v)))
     \<and> (\<forall>v n. getAttribute el attr = Some v \<and> attr \<noteq> ''points''
              \<and> scanDecimal (trim v) = Some (n, [])
            \<longrightarrow> \<not> isNaN v \<and> n \<noteq> NaN \<and> map_of r attr = Some (VNum n))
     \<and> getShapeAttributes
          (Element ''circle'' [(''cx'', ''5''), (''cy'', ''10''), (''r'', ''2.5'')] cs)
        = Inr (VObj [(''cx'', VNum (Num 5)), (''cy'', VNum (Num 10)), (''r'', VNum (Num (5 / 2)))])"
proof -
  let ?r = "foldl (\<lambda>acc attr. AList.update attr (attributeValue el attr) acc) [] attrs"
  have res: "getShapeAttributes el = Inr (VObj ?r)"
    using assms(1) by (rule getShapeAttributes_table)
  have val: "map_of ?r attr = Some (attributeValue el attr)"
    using assms(2) by (simp add: map_of_reduce)
  have absent: "getAttribute el attr = None \<longrightarrow> map_of ?r attr = Some VNull"
    unfolding val by (auto simp: attributeValue_def)
  have points: "\<forall>v. getAttribute el attr = Some v \<and> attr = ''points''
            \<longrightarrow> map_of ?r attr = Some (pointsValue (parsePoints v))"
    unfolding val by (auto simp: attributeValue_def)
  have raw: "\<forall>v. getAttribute el attr = Some v \<and> attr \<noteq> ''points'' \<and> isNaN v
            \<longrightarrow> map_of ?r attr = Some (VStr v)"
    unfolding val by (auto simp: attributeValue_def)
  have num: "\<forall>v. getAttribute el attr = Some v \<and> attr \<noteq> ''points'' \<and> \<not> isNaN v
            \<longrightarrow> map_of ?r attr = Some (VNum (parseFloat v))"
    unfolding val by (auto simp: attributeValue_def)
  have lit: "\<forall>v n. getAttribute el attr = Some v \<and> attr \<noteq> ''points''
              \<and> scanDecimal (trim v) = Some (n, [])
            \<longrightarrow> \<not> isNaN v \<and> n \<noteq> NaN \<and> map_of ?r attr = Some (VNum n)"
  proof (intro allI impI)
    fix v n
    assume h: "getAttribute el attr = Some v \<and> attr \<noteq> ''points''
                \<and> scanDecimal (trim v) = Some (n, [])"
    then have "Number v = n" "parseFloat v = n" "n \<noteq> NaN"
      using decimal_literal [of v n] by simp_all
    then show "\<not> isNaN v \<and> n \<noteq> NaN \<and> map_of ?r attr = Some (VNum n)"
      unfolding val using h by (simp add: attributeValue_def isNaN_def)
  qed
  have circle: "getShapeAttributes
          (Element ''circle'' [(''cx'', ''5''), (''cy'', ''10''), (''r'', ''2.5'')] cs)
        = Inr (VObj [(''cx'', VNum (Num 5)), (''cy'', VNum (Num 10)), (''r'', VNum (Num (5 / 2)))])"
    by code_simp
  show ?thesis
    by (intro exI [of _ ?r] conjI res absent points raw num lit circle)
qed

lemma attribute_resolution_example:
  "getShapeAttributes
     (Element ''Rect'' [(''x'', '' 1.5e1 ''), (''y'', ''5px''), (''width'', ''0x10''), (''rx'', '''')] [])
   = Inr (VObj [(''x'', VNum (Num 15)), (''y'', VStr ''5px''), (''width'', VNum (Num 0)),
                (''height'', VNull), (''rx'', VNum NaN), (''ry'', VNull)])
   \<and> map_of attributesMap (toLowerCase ''Rect'') = Some [''x'', ''y'', ''width'', ''height'', ''rx'', ''ry'']
   \<and> scanDecimal (trim '' 1.5e1 '') = Some (Num 15, [])"
proof -
  have tab: "map_of attributesMap (toLowerCase (tagName
      (Element ''Rect'' [(''x'', '' 1.5e1 ''), (''y'', ''5px''), (''width'', ''0x10''), (''rx'', '''')] [])))
     = Some [''x'', ''y'', ''width'', ''height'', ''rx'', ''ry'']"
    by code_simp
  have mem: "''x'' \<in> set [''x'', ''y'', ''width'', ''height'', ''rx'', ''ry'']"
    by simp
  have run: "getShapeAttributes
     (Element ''Rect'' [(''x'', '' 1.5e1 ''), (''y'', ''5px''), (''width'', ''0x10''), (''rx'', '''')] [])
   = Inr (VObj [(''x'', VNum (Num 15)), (''y'', VStr ''5px''), (''width'', VNum (Num 0)),
                (''height'', VNull), (''rx'', VNum NaN), (''ry'', VNull)])"
    by code_simp
  have lit: "scanDecimal (trim '' 1.5e1 '') = Some (Num 15, [])"
    by code_simp
  from attribute_resolution [OF tab mem] show ?thesis
    using run tab lit by simp
qed

lemma getShapeAttributes_points_example:
  "getShapeAttributes (Element ''polygon'' [(''points'', ''0,0 10,10 20,0'')] cs)
   = Inr (VObj [(''points'',
           VArr [VArr [VNum (Num 0), VNum (Num 0)], VArr [VNum (Num 10), VNum (Num 10)],
                 VArr [VNum (Num 20), VNum (Num 0)]])])"
  by code_simp

text \<open>
  C5. The claim has an absent attribute stored as \<^verbatim>\<open>null\<close>, \<^verbatim>\<open>points\<close> parsed by
  \<open>parsePoints\<close>, a value that fails the numeric coercion kept as the raw string, and a
  value that passes it stored as a number. The code tests with \<^verbatim>\<open>isNaN\<close>, which follows the
  grammar of \<^verbatim>\<open>Number\<close>, but converts with \<^verbatim>\<open>parseFloat\<close>, which reads a decimal prefix. On
  \<^verbatim>\<open><rect width="0x10" rx="" ry=" "/>\<close> the three values pass the test (\<^verbatim>\<open>Number\<close> gives 16,
  0 and 0), and what is stored is 0 for \<^verbatim>\<open>width\<close> and the not-a-number value for \<^verbatim>\<open>rx\<close> and
  \<^verbatim>\<open>ry\<close>: a passing value is not converted to the number it was tested as.
\<close>

theorem attribute_conversion_mismatch:
  "getShapeAttributes (Element ''rect'' [(''width'', ''0x10''), (''rx'', []), (''ry'', '' '')] [])
   = Inr (VObj [(''x'', VNull), (''y'', VNull), (''width'', VNum (Num 0)), (''height'', VNull),
                (''rx'', VNum NaN), (''ry'', VNum NaN)])
   \<and> \<not> isNaN ''0x10'' \<and> Number ''0x10'' = Num 16
   \<and> \<not> isNaN [] \<and> Number [] = Num 0
   \<and> \<not> isNaN '' '' \<and> Number '' '' = Num 0"
  by code_simp

section \<open>Properties of getStyleAttributes\<close>

lemma map_of_keys: "(map_of al k = None) = (k \<notin> set (map fst al))"
  by (simp add: map_of_eq_None_iff)

lemma styleStep_cases:
  assumes "styleStep od el st a = Inr st'"
  shows "st' = st \<or> (\<exists>v. getAttribute el a \<noteq> None \<and> st' = AList.update a v st)"
proof (cases "getAttribute el a")
  case None
  then show ?thesis
    using assms by (simp add: styleStep_def)
next
  case (Some x)
  then show ?thesis
    using assms
    by (auto simp: styleStep_def split: option.splits if_splits sum.splits)
qed

lemma styleStep_other:
  assumes "styleStep od el st a = Inr st'" "k \<noteq> a"
  shows "map_of st' k = map_of st k"
  using styleStep_cases [OF assms(1)] assms(2) by (auto simp: update_conv')

lemma styleStep_keys:
  assumes "styleStep od el st a = Inr st'"
  shows "set (map fst st') \<subseteq> set (map fst st) \<union> (if getAttribute el a = None then {} else {a})"
proof -
  consider "st' = st" | v where "getAttribute el a \<noteq> None" "st' = AList.update a v st"
    using styleStep_cases [OF assms] by blast
  then show ?thesis
  proof cases
    case 1
    then show ?thesis by auto
  next
    case 2
    have "fst ` set (AList.update a v st) = {a} \<union> fst ` set st"
      by (rule dom_update)
    then show ?thesis
      using 2 by auto
  qed
qed

lemma forEach_append:
  "forEach f (xs @ ys) s = (case forEach f xs s of Inl e \<Rightarrow> Inl e | Inr s1 \<Rightarrow> forEach f ys s1)"
  by (induction xs arbitrary: s) (auto split: sum.splits)

lemma forEach_other:
  assumes "forEach (styleStep od el) as st = Inr st'" "k \<notin> set as"
  shows "map_of st' k = map_of st k"
  using assms
proof (induction as arbitrary: st)
  case Nil
  then show ?case by simp
next
  case (Cons a as)
  then obtain st1 where st1: "styleStep od el st a = Inr st1" "forEach (styleStep od el) as st1 = Inr st'"
    by (auto split: sum.splits)
  then show ?case
    using Cons styleStep_other [OF st1(1), of k] by auto
qed

lemma forEach_keys:
  assumes "forEach (styleStep od el) as st = Inr st'"
  shows "set (map fst st') \<subseteq> set (map fst st) \<union> {a \<in> set as. getAttribute el a \<noteq> None}"
  using assms
proof (induction as arbitrary: st)
  case Nil
  then show ?case by simp
next
  case (Cons a as)
  then obtain st1 where st1: "styleStep od el st a = Inr st1" "forEach (styleStep od el) as st1 = Inr st'"
    by (auto split: sum.splits)
  show ?case
    using Cons.IH [OF st1(2)] styleStep_keys [OF st1(1)] by (auto split: if_splits)
qed

lemma forEach_at:
  assumes "forEach (styleStep od el) as st = Inr st'" "distinct as" "a \<in> set as"
  shows "\<exists>st1 st2. styleStep od el st1 a = Inr st2
           \<and> map_of st1 a = map_of st a \<and> map_of st' a = map_of st2 a"
proof -
  obtain xs ys where split: "as = xs @ a # ys"
    using assms(3) by (auto simp: in_set_conv_decomp)
  then have fresh: "a \<notin> set xs" "a \<notin> set ys"
    using assms(2) by auto
  obtain st1 where st1: "forEach (styleStep od el) xs st = Inr st1"
      "forEach (styleStep od el) (a # ys) st1 = Inr st'"
    using assms(1) unfolding split forEach_append by (auto split: sum.splits)
  then obtain st2 where st2: "styleStep od el st1 a = Inr st2"
      "forEach (styleStep od el) ys st2 = Inr st'"
    by (auto split: sum.splits)
  show ?thesis
    using st2(1) forEach_other [OF st1(1) fresh(1)] forEach_other [OF st2(2) fresh(2)]
    by blast
qed

lemma presentationAttributes_distinct: "distinct presentationAttributes"
  by (simp add: presentationAttributes_def)

lemma startsWith_url:
  "startsWith ''url('' v \<Longrightarrow> v \<noteq> [] \<and> v \<noteq> ''none''"
  by (cases v) auto

lemma matchGradientId_url:
  assumes "\<forall>c \<in> set gid. \<not> isLineTerminator c"
  shows "matchGradientId (''url(#'' @ gid @ '')'') = Some gid"
proof -
  have run: "takeWhile (\<lambda>x. \<not> isLineTerminator x) (gid @ '')'') = gid @ '')''"
    using assms by (simp add: isLineTerminator_def)
  have "beforeLast CHR '')'' (gid @ '')'') = gid"
    by (simp add: beforeLast_def)
  then show ?thesis
    using run by simp
qed

lemma parseGradient_returns:
  assumes "tagName g \<notin> set objectPrototypeKeys"
  shows "\<exists>r. parseGradient (Some g) = Inr (VObj r)"
  using assms by (auto simp: parseGradient_def getProperty_def Let_def split: option.splits)

lemma styleStep_returns:
  assumes "''hasOwnProperty'' \<notin> set (map fst st)"
    and "od = Some doc"
    and "\<forall>gid g. getElementById doc gid = Some g \<longrightarrow> tagName g \<notin> set objectPrototypeKeys"
  shows "\<exists>st'. styleStep od el st a = Inr st'"
proof -
  have "\<exists>r. parseGradient (Some g) = Inr r" if "getElementById doc gid = Some g" for gid g
    using that assms(3) parseGradient_returns by blast
  then show ?thesis
    using assms(1,2)
    by (fastforce simp: styleStep_def hasOwnProperty_def split: option.splits sum.splits)
qed

lemma forEach_returns:
  assumes "''hasOwnProperty'' \<notin> set (map fst st)" "''hasOwnProperty'' \<notin> set as"
    and "od = Some doc"
    and "\<forall>gid g. getElementById doc gid = Some g \<longrightarrow> tagName g \<notin> set objectPrototypeKeys"
  shows "\<exists>st'. forEach (styleStep od el) as st = Inr st'"
  using assms(1,2)
proof (induction as arbitrary: st)
  case Nil
  then show ?case by simp
next
  case (Cons a as)
  obtain st1 where st1: "styleStep od el st a = Inr st1"
    using styleStep_returns [OF Cons.prems(1) assms(3,4)] by blast
  have "''hasOwnProperty'' \<notin> set (map fst st1)"
    using styleStep_keys [OF st1] Cons.prems by (auto split: if_splits)
  then show ?case
    using Cons.IH [of st1] Cons.prems(2) st1 by auto
qed

lemma getStyleAttributes_returns:
  assumes "''hasOwnProperty'' \<notin> set (map fst (inlineStyles el))"
    and "od = Some doc"
    and "\<forall>gid g. getElementById doc gid = Some g \<longrightarrow> tagName g \<notin> set objectPrototypeKeys"
  shows "\<exists>styles. getStyleAttributes od el = Inr styles"
  unfolding getStyleAttributes_def
  using assms by (intro forEach_returns) (auto simp: presentationAttributes_def)

text \<open>
  What the code does for a value that starts with \<^verbatim>\<open>url(\<close> when the call returns. If the
  regular expression extracts an id and the owner document has an element of that id, the
  record that \<open>parseGradient\<close> gives for it is what the result holds under the attribute's
  name, whatever the inline style had set there. If no id is extracted, or the id is
  empty, or the document has no element of that id, the result holds under that name what
  the inline style had set, or nothing if it had set nothing. For a value \<^verbatim>\<open>url(#id)\<close> whose
  id has no line terminator the extracted id is that id.
\<close>

lemma gradient_reference:
  assumes "getStyleAttributes od el = Inr styles"
    and "attr \<in> set presentationAttributes"
    and "getAttribute el attr = Some value" and "startsWith ''url('' value"
  shows "(\<forall>doc gid g. od = Some doc \<and> matchGradientId value = Some gid
              \<and> getElementById doc gid = Some g
            \<longrightarrow> (\<exists>r. parseGradient (Some g) = Inr r \<and> map_of styles attr = Some r))
     \<and> (matchGradientId value = None \<or> matchGradientId value = Some []
          \<or> (\<exists>doc gid. od = Some doc \<and> matchGradientId value = Some gid
                \<and> getElementById doc gid = None)
            \<longrightarrow> map_of styles attr = map_of (inlineStyles el) attr)
     \<and> (\<forall>gid. (\<forall>c \<in> set gid. \<not> isLineTerminator c)
            \<longrightarrow> matchGradientId (''url(#'' @ gid @ '')'') = Some gid)"
proof -
  obtain st1 st2 where step: "styleStep od el st1 attr = Inr st2"
    and before: "map_of st1 attr = map_of (inlineStyles el) attr"
    and after: "map_of styles attr = map_of st2 attr"
    using forEach_at [OF assms(1) [unfolded getStyleAttributes_def]
        presentationAttributes_distinct assms(2)]
    by blast
  have plain: "value \<noteq> []" "value \<noteq> ''none''"
    using startsWith_url [OF assms(4)] by simp_all
  have found: "\<exists>r. parseGradient (Some g) = Inr r \<and> map_of styles attr = Some r"
    if "od = Some doc" "matchGradientId value = Some gid" "getElementById doc gid = Some g"
    for doc gid g
  proof -
    have "gid \<noteq> []"
      using that(3) by (auto simp: getElementById_def)
    then show ?thesis
      using step that assms(3,4) plain after
      by (auto simp: styleStep_def update_conv' split: sum.splits)
  qed
  have failed: "map_of styles attr = map_of (inlineStyles el) attr"
    if "matchGradientId value = None \<or> matchGradientId value = Some []
          \<or> (\<exists>doc gid. od = Some doc \<and> matchGradientId value = Some gid
                \<and> getElementById doc gid = None)"
  proof -
    have "st2 = st1"
      using step that assms(3,4) plain
      by (auto simp: styleStep_def split: option.splits if_splits)
    then show ?thesis
      using before after by simp
  qed
  show ?thesis
    using found failed matchGradientId_url by blast
qed

lemma gradient_reference_example:
  "getStyleAttributes (Some gradientDocument) gradientRect
   = Inr [(''fill'',
           VObj [(''type'', VStr ''linear''), (''x1'', VStr ''0''), (''y1'', VNull),
                 (''x2'', VStr ''1''), (''y2'', VNull),
                 (''stops'',
                  VArr [VObj [(''offset'', VStr ''0''), (''color'', VStr ''red'')],
                        VObj [(''offset'', VStr ''1''), (''color'', VStr ''#000000'')]])]),
          (''stroke'', VStr ''blue'')]
   \<and> map_of (inlineStyles gradientRect) ''fill'' = Some (VStr ''red'')
   \<and> map_of (inlineStyles gradientRect) ''stroke'' = Some (VStr ''blue'')
   \<and> matchGradientId ''url(#g1)'' = Some ''g1''
   \<and> getElementById gradientDocument ''g2'' = None"
proof -
  let ?styles = "[(''fill'',
           VObj [(''type'', VStr ''linear''), (''x1'', VStr ''0''), (''y1'', VNull),
                 (''x2'', VStr ''1''), (''y2'', VNull),
                 (''stops'',
                  VArr [VObj [(''offset'', VStr ''0''), (''color'', VStr ''red'')],
                        VObj [(''offset'', VStr ''1''), (''color'', VStr ''#000000'')]])]),
          (''stroke'', VStr ''blue'')]"
  have run: "getStyleAttributes (Some gradientDocument) gradientRect = Inr ?styles"
    by code_simp
  have fill: "''fill'' \<in> set presentationAttributes"
    "getAttribute gradientRect ''fill'' = Some ''url(#g1)''" "startsWith ''url('' ''url(#g1)''"
    by code_simp+
  have stroke: "''stroke'' \<in> set presentationAttributes"
    "getAttribute gradientRect ''stroke'' = Some ''url(#g2)''" "startsWith ''url('' ''url(#g2)''"
    by code_simp+
  have ids: "matchGradientId ''url(#g1)'' = Some ''g1''" "matchGradientId ''url(#g2)'' = Some ''g2''"
    "getElementById gradientDocument ''g2'' = None"
    by code_simp+
  have inline: "map_of (inlineStyles gradientRect) ''fill'' = Some (VStr ''red'')"
    "map_of (inlineStyles gradientRect) ''stroke'' = Some (VStr ''blue'')"
    by code_simp+
  from gradient_reference [OF run fill] gradient_reference [OF run stroke]
  show ?thesis
    using run ids inline by simp
qed

text \<open>
  C1. The claim has the gradient record stored under the attribute's name whenever the
  id of a \<^verbatim>\<open>url(#id)\<close> value resolves in the owner document, and the style record left
  unchanged for that name when the lookup fails. The code does so when the call returns
  (lemma \<open>gradient_reference\<close>), but the call need not return: \<open>parseGradient\<close> looks the
  tag name of the element found up in an object literal, so for
  \<^verbatim>\<open><rect style="fill:red" fill="url(#g1)"/>\<close> in a document where \<^verbatim>\<open>g1\<close> is the id of a
  \<^verbatim>\<open><constructor/>\<close> element the id resolves and the call raises a TypeError: nothing is
  stored. An element-like node without owner document raises as well, at
  \<^verbatim>\<open>element.ownerDocument.getElementById\<close>, instead of leaving the style unchanged.
\<close>

theorem gradient_reference_raises:
  "getStyleAttributes
     (Some (Document (Some (Element ''svg'' [] [Element ''constructor'' [(''id'', ''g1'')] []]))))
     (Element ''rect'' [(''style'', ''fill:red''), (''fill'', ''url(#g1)'')] [])
   = Inl TypeError
   \<and> matchGradientId ''url(#g1)'' = Some ''g1''
   \<and> getElementById
        (Document (Some (Element ''svg'' [] [Element ''constructor'' [(''id'', ''g1'')] []]))) ''g1''
      = Some (Element ''constructor'' [(''id'', ''g1'')] [])
   \<and> getStyleAttributes None (Element ''rect'' [(''style'', ''fill:red''), (''fill'', ''url(#g1)'')] [])
     = Inl TypeError"
  by code_simp

text \<open>
  What the code does for a plain value when the call returns. For an attribute of the
  allow-list whose value is not empty, not \<^verbatim>\<open>none\<close> and does not start with \<^verbatim>\<open>url(\<close>, the
  result holds under its name the value of the inline style if the inline style has set
  that name, and the attribute's value otherwise. Every name in the result is a name of
  the inline style or an attribute of the allow-list that the element has. An element
  with \<^verbatim>\<open>style="fill:red;stroke:blue"\<close> and \<^verbatim>\<open>fill="green"\<close> gives
  \<^verbatim>\<open>{fill: "red", stroke: "blue"}\<close>.
\<close>

lemma inline_wins:
  assumes "getStyleAttributes od el = Inr styles"
  shows "(\<forall>attr v. attr \<in> set presentationAttributes \<and> getAttribute el attr = Some v
              \<and> v \<noteq> [] \<and> v \<noteq> ''none'' \<and> \<not> startsWith ''url('' v
            \<longrightarrow> map_of styles attr
                = (case map_of (inlineStyles el) attr of None \<Rightarrow> Some (VStr v) | Some x \<Rightarrow> Some x))
     \<and> set (map fst styles)
        \<subseteq> set (map fst (inlineStyles el))
          \<union> {a \<in> set presentationAttributes. getAttribute el a \<noteq> None}
     \<and> getStyleAttributes od'
          (Element t [(''style'', ''fill:red;stroke:blue''), (''fill'', ''green'')] cs)
        = Inr [(''fill'', VStr ''red''), (''stroke'', VStr ''blue'')]"
proof -
  have stored: "map_of styles attr
                = (case map_of (inlineStyles el) attr of None \<Rightarrow> Some (VStr v) | Some x \<Rightarrow> Some x)"
    if h: "attr \<in> set presentationAttributes" "getAttribute el attr = Some v"
      "v \<noteq> []" "v \<noteq> ''none''" "\<not> startsWith ''url('' v"
    for attr v
  proof -
    obtain st1 st2 where step: "styleStep od el st1 attr = Inr st2"
      and before: "map_of st1 attr = map_of (inlineStyles el) attr"
      and after: "map_of styles attr = map_of st2 attr"
      using forEach_at [OF assms [unfolded getStyleAttributes_def]
          presentationAttributes_distinct h(1)]
      by blast
    obtain present where present: "hasOwnProperty st1 attr = Inr present"
      and st2: "st2 = (if present then st1 else AList.update attr (VStr v) st1)"
      using step h by (auto simp: styleStep_def split: sum.splits if_splits)
    have "present = (map_of st1 attr \<noteq> None)"
      using present by (auto simp: hasOwnProperty_def map_of_keys split: if_splits)
    then show ?thesis
      using st2 before after by (auto simp: update_conv')
  qed
  have keys: "set (map fst styles)
        \<subseteq> set (map fst (inlineStyles el))
          \<union> {a \<in> set presentationAttributes. getAttribute el a \<noteq> None}"
    using assms unfolding getStyleAttributes_def by (rule forEach_keys)
  have example: "getStyleAttributes od'
          (Element t [(''style'', ''fill:red;stroke:blue''), (''fill'', ''green'')] cs)
        = Inr [(''fill'', VStr ''red''), (''stroke'', VStr ''blue'')]"
    by code_simp
  show ?thesis
    using stored keys example by blast
qed

lemma inline_wins_example:
  "getStyleAttributes None plainRect
   = Inr [(''fill'', VStr ''red''), (''stroke'', VStr ''blue''), (''opacity'', VStr ''0.5'')]
   \<and> map_of (inlineStyles plainRect) ''fill'' = Some (VStr ''red'')
   \<and> map_of (inlineStyles plainRect) ''opacity'' = None"
proof -
  have run: "getStyleAttributes None plainRect
     = Inr [(''fill'', VStr ''red''), (''stroke'', VStr ''blue''), (''opacity'', VStr ''0.5'')]"
    by code_simp
  have inline: "map_of (inlineStyles plainRect) ''fill'' = Some (VStr ''red'')"
    "map_of (inlineStyles plainRect) ''opacity'' = None"
    by code_simp+
  from inline_wins [OF run] show ?thesis
    using run inline by simp
qed

text \<open>
  C7. The claim has a plain value of an allow-listed attribute stored if and only if the
  inline style has not set that name. The code does so when the call returns (lemma
  \<open>inline_wins\<close>), but the test \<^verbatim>\<open>styles.hasOwnProperty(attr)\<close> is looked up on the style
  record itself: on \<^verbatim>\<open><rect style="hasOwnProperty:1" fill="green"/>\<close> the inline style has
  not set \<^verbatim>\<open>fill\<close>, the record's own property \<^verbatim>\<open>hasOwnProperty\<close> is the string \<^verbatim>\<open>"1"\<close>, and the
  call raises a TypeError instead of storing \<^verbatim>\<open>fill: "green"\<close>, whatever the owner document.
\<close>

theorem inline_check_raises:
  "getStyleAttributes od (Element ''rect'' [(''style'', ''hasOwnProperty:1''), (''fill'', ''green'')] [])
   = Inl TypeError
   \<and> map_of (inlineStyles (Element ''rect'' [(''style'', ''hasOwnProperty:1''), (''fill'', ''green'')] []))
        ''fill'' = None
   \<and> inlineStyles (Element ''rect'' [(''style'', ''hasOwnProperty:1''), (''fill'', ''green'')] [])
     = [(''hasOwnProperty'', VStr ''1'')]"
  by code_simp

section \<open>Properties of parseGradient\<close>














section \<open>Where the module raises\<close>

text \<open>
  C2. The claim has no exported function raise on the inputs of the input boundary, an
  unknown shape or gradient tag giving an empty record or empty geometry. The lookup
  tables are object literals, so a tag name that is a property inherited from
  \<^verbatim>\<open>Object.prototype\<close> finds a value that is not a list of names, the default \<^verbatim>\<open>|| []\<close> does
  not apply, and \<^verbatim>\<open>reduce\<close> is not a function: \<open>parseGradient\<close> raises a TypeError on a
  \<^verbatim>\<open><constructor/>\<close> element and on a \<^verbatim>\<open><toString/>\<close> element, and \<open>getShapeAttributes\<close> on a
  \<^verbatim>\<open><__proto__/>\<close> element. On the other tag names these two functions return (lemmas
  \<open>parseGradient_returns\<close>, \<open>getShapeAttributes_other\<close>), and \<open>getStyleAttributes\<close> returns
  under the conditions of lemma \<open>getStyleAttributes_returns\<close>.
\<close>

theorem inherited_tag_raises:
  "parseGradient (Some (Element ''constructor'' [] [])) = Inl TypeError
   \<and> parseGradient (Some (Element ''toString'' [] [])) = Inl TypeError
   \<and> getShapeAttributes (Element ''__proto__'' [] []) = Inl TypeError"
  by code_simp

text \<open>
  C8. The claim has each segment of the inline style split at its first colon, the value
  being the rest of the segment. The code splits the segment at every colon and
  \<^verbatim>\<open>Object.fromEntries\<close> reads the first two pieces only, so a value that holds a colon is
  cut at it: \<^verbatim>\<open>style="fill:url(http://a/b);stroke:blue"\<close> seeds \<^verbatim>\<open>fill\<close> with \<^verbatim>\<open>"url(http"\<close>, not
  with \<^verbatim>\<open>"url(http://a/b)"\<close>. (Splitting at the semicolons, dropping the empty segments,
  trimming and the last duplicate winning are as the claim says.)
\<close>

theorem inline_value_cut_at_colon:
  "inlineStyles (Element ''rect'' [(''style'', ''fill:url(http://a/b);stroke:blue'')] [])
   = [(''fill'', VStr ''url(http''), (''stroke'', VStr ''blue'')]
   \<and> styleEntry ''fill:url(http://a/b)'' = (''fill'', VStr ''url(http'')
   \<and> map trim (splitOn CHR '':'' ''fill:url(http://a/b)'') = [''fill'', ''url(http'', ''//a/b)'']
   \<and> inlineStyles (Element ''rect'' [(''style'', ''fill : red ;; fill:blue; stroke:none'')] [])
     = [(''fill'', VStr ''blue''), (''stroke'', VStr ''none'')]"
  by code_simp

end
